theory Spec2Isabelle
  imports Main "HOL-Library.Word"
begin

unbundle bit_operations_syntax

section \<open>Machine types\<close>

text \<open>
  The emulator works on \<open>std::uint8_t\<close> operands and a \<open>std::uint16_t\<close> accumulator.
  Every arithmetic or bitwise operator of the C++ source first promotes its operands to
  \<open>int\<close> (32 bits); the promotion keeps the value (\<open>ucast\<close> upwards) and the
  assignment back to the narrower unsigned type truncates (\<open>ucast\<close> downwards).
\<close>

type_synonym uint8_t = "8 word"
type_synonym uint16_t = "16 word"
type_synonym c_int = "32 word"

section \<open>cpu.hpp: operation codes and status flags\<close>

definition NOP :: uint8_t where "NOP = 0x00"
definition OR_op :: uint8_t where "OR_op = 0x01"
definition AND_op :: uint8_t where "AND_op = 0x02"
definition XOR_op :: uint8_t where "XOR_op = 0x03"
definition ADD :: uint8_t where "ADD = 0x04"
definition SUB :: uint8_t where "SUB = 0x05"

definition S :: uint8_t where "S = 4"
definition N :: uint8_t where "N = 3"
definition Z :: uint8_t where "Z = 2"
definition V :: uint8_t where "V = 1"
definition C :: uint8_t where "C = 0"

text \<open>
  The operation codes \<open>OR\<close>, \<open>AND\<close> and \<open>XOR\<close> are named \<open>OR_op\<close>,
  \<open>AND_op\<close> and \<open>XOR_op\<close> here, the helper \<open>set\<close> is named \<open>set_reg\<close> and
  the parameter \<open>bit\<close> of the helpers is named \<open>bitno\<close>, since the original names
  are taken in HOL.

  \<open>set\<close>: \<open>reg |= (1 << bit)\<close>. The shift is done on \<open>int\<close>, so it is defined for
  bit numbers below 31 only; \<open>calculate\<close> uses the bit numbers 0 to 4.
\<close>

definition set_reg :: "'a::len word \<Rightarrow> uint8_t \<Rightarrow> 'a word" where
  "set_reg reg bitno = ucast ((ucast reg :: c_int) OR push_bit (unat bitno) 1)"

text \<open>\<open>clr\<close>: \<open>reg &= ~(1 << bit)\<close>.\<close>

definition clr :: "'a::len word \<Rightarrow> uint8_t \<Rightarrow> 'a word" where
  "clr reg bitno = ucast ((ucast reg :: c_int) AND NOT (push_bit (unat bitno) 1))"

text \<open>
  \<open>read\<close>: \<open>return reg & (1 << bit)\<close>, converted to the register's own type: zero when
  the bit is low, the bit's weight when it is high.
\<close>

definition read :: "'a::len word \<Rightarrow> uint8_t \<Rightarrow> 'a word" where
  "read reg bitno = ucast ((ucast reg :: c_int) AND push_bit (unat bitno) 1)"

text \<open>
  \<open>get_signed(num, sr)\<close>: the result is a C \<open>int\<close> between -256 and 255, so no
  wrap-around can happen and the value is modelled as a mathematical integer.
\<close>

definition get_signed :: "uint8_t \<Rightarrow> uint8_t \<Rightarrow> int" where
  "get_signed num sr = (if read sr S \<noteq> 0 then uint num - 256 else uint num)"

section \<open>alu.hpp: calculate\<close>

text \<open>
  The status register is passed by reference: the model returns the pair of the returned
  byte and the updated register. The operands of \<open>==\<close>, \<open>!=\<close> and \<open><\<close> are promoted
  to \<open>int\<close>, which compares their unsigned values.
\<close>

definition calculate :: "uint8_t \<Rightarrow> uint8_t \<Rightarrow> uint8_t \<Rightarrow> uint8_t \<Rightarrow> uint8_t \<times> uint8_t" where
  "calculate operation a b sr =
    (let result0 = (0x00 :: uint16_t);
         sr0 = (ucast ((ucast sr :: c_int) AND
                  NOT (push_bit (unat S) 1 OR push_bit (unat N) 1 OR push_bit (unat Z) 1
                       OR push_bit (unat V) 1 OR push_bit (unat C) 1)) :: uint8_t);
         (result, sr1) =
           (if operation = OR_op then
              (ucast ((ucast a :: c_int) OR ucast b), sr0)
            else if operation = AND_op then
              (ucast ((ucast a :: c_int) AND ucast b), sr0)
            else if operation = XOR_op then
              (ucast ((ucast a :: c_int) XOR ucast b), sr0)
            else if operation = ADD then
              (let result = (ucast ((ucast a :: c_int) + ucast b) :: uint16_t)
               in (result,
                   if unat (read a 7) = unat (read b 7) \<and> unat (read a 7) \<noteq> unat (read result 7)
                   then set_reg sr0 V else sr0))
            else if operation = SUB then
              (let result1 = (ucast ((ucast a :: c_int) - ucast b) :: uint16_t);
                   result = (if a < b then ucast ((ucast result1 :: c_int) + 256) else result1)
               in (result,
                   if unat (read a 7) \<noteq> unat (read b 7) \<and> unat (read b 7) = unat (read result 7)
                   then set_reg sr0 V else sr0))
            else (result0, sr0));
         sr2 = (if read result 8 \<noteq> 0 then set_reg sr1 C else sr1);
         sr3 = (if result = 0 then set_reg sr2 Z else sr2);
         sr4 = (if read result 7 \<noteq> 0 then set_reg sr3 N else sr3);
         sr5 = (if (read sr4 N \<noteq> 0) \<noteq> (read sr4 V \<noteq> 0) then set_reg sr4 S else sr4)
     in (ucast result, sr5))"

section \<open>Bit access and accumulator arithmetic\<close>

lemma bit_read_iff:
  "bit (read (x::'a::len word) k) n \<longleftrightarrow> n = unat k \<and> n < 32 \<and> bit x n"
  by (auto simp add: read_def bit_simps dest: bit_imp_le_length)

lemma bit_set_reg_iff:
  "bit (set_reg (x::uint8_t) k) n \<longleftrightarrow> bit x n \<or> (n = unat k \<and> n < 8)"
  by (auto simp add: set_reg_def bit_simps dest: bit_imp_le_length)

lemma read_eq_if:
  "read (x::'a::len word) k = (if bit x (unat k) \<and> unat k < 32 then push_bit (unat k) 1 else 0)"
  by (rule bit_word_eqI) (auto simp add: bit_read_iff bit_simps dest: bit_imp_le_length)

lemma read_7_u8: "unat (read (x::uint8_t) 7) = (if bit x 7 then 128 else 0)"
  by (simp add: read_eq_if)

lemma read_7_u16: "unat (read (x::uint16_t) 7) = (if bit x 7 then 128 else 0)"
  by (simp add: read_eq_if)

lemma read_neq_0_iff:
  "read (x::'a::len word) k \<noteq> 0 \<longleftrightarrow> bit x (unat k) \<and> unat k < 32"
proof
  assume "read x k \<noteq> 0"
  then obtain n where "bit (read x k) n"
    by (auto simp add: bit_eq_iff [where ?'a = "'a word"])
  then show "bit x (unat k) \<and> unat k < 32"
    by (auto simp add: bit_read_iff)
next
  assume "bit x (unat k) \<and> unat k < 32"
  then have "bit (read x k) (unat k)"
    by (simp add: bit_read_iff)
  then show "read x k \<noteq> 0"
    by auto
qed

lemma bit_31_iff: "bit (31 :: int) n \<longleftrightarrow> n < 5"
  using bit_mask_iff [of 5 n, where ?'a = int]
  by (simp add: mask_eq_exp_minus_1)

lemma bit_clear_flags_iff:
  "bit (ucast ((ucast (sr::uint8_t) :: c_int) AND
                  NOT (push_bit (unat S) 1 OR push_bit (unat N) 1 OR push_bit (unat Z) 1
                       OR push_bit (unat V) 1 OR push_bit (unat C) 1)) :: uint8_t) n
   \<longleftrightarrow> bit sr n \<and> 5 \<le> n"
  using bit_imp_le_length [of sr n]
  by (auto simp add: S_def N_def Z_def V_def C_def bit_simps bit_31_iff)

lemma acc_OR: "(ucast ((ucast (a::uint8_t) :: c_int) OR ucast (b::uint8_t)) :: uint16_t) = ucast (a OR b)"
  by (rule bit_word_eqI) (auto simp add: bit_simps dest: bit_imp_le_length)

lemma acc_AND: "(ucast ((ucast (a::uint8_t) :: c_int) AND ucast (b::uint8_t)) :: uint16_t) = ucast (a AND b)"
  by (rule bit_word_eqI) (auto simp add: bit_simps dest: bit_imp_le_length)

lemma acc_XOR: "(ucast ((ucast (a::uint8_t) :: c_int) XOR ucast (b::uint8_t)) :: uint16_t) = ucast (a XOR b)"
  by (rule bit_word_eqI) (auto simp add: bit_simps dest: bit_imp_le_length)

lemma unat_u8_less: "unat (a::uint8_t) < 256"
  using unsigned_less [of a, where ?'a = nat] by simp

lemma unat_promote: "unat (ucast (a::uint8_t) :: c_int) = unat a"
  using unat_u8_less [of a] by (simp add: unsigned_ucast_eq take_bit_eq_mod)

lemma unat_acc_ADD:
  "unat (ucast ((ucast (a::uint8_t) :: c_int) + ucast (b::uint8_t)) :: uint16_t) = unat a + unat b"
  using unat_u8_less [of a] unat_u8_less [of b]
  by (simp add: unsigned_ucast_eq take_bit_eq_mod unat_word_ariths unat_promote)

lemma mod_wrap_neg: "- m \<le> d \<Longrightarrow> d < 0 \<Longrightarrow> d mod m = d + m" for d m :: int
proof -
  assume a: "- m \<le> d" "d < 0"
  have "d mod m = (d + m) mod m"
    by simp
  also have "\<dots> = d + m"
    using a by (intro mod_pos_pos_trivial) simp_all
  finally show ?thesis .
qed

lemma uint_promote8: "uint (ucast (a::uint8_t) :: c_int) = uint a"
  using uint_lt2p [of a] by (simp add: unsigned_ucast_eq take_bit_eq_mod)

lemma uint_promote16: "uint (ucast (r::uint16_t) :: c_int) = uint r"
  using uint_lt2p [of r] by (simp add: unsigned_ucast_eq take_bit_eq_mod)

lemma uint_widen8: "uint (ucast (a::uint8_t) :: uint16_t) = uint a"
  using uint_lt2p [of a] by (simp add: unsigned_ucast_eq take_bit_eq_mod)

lemma uint_truncate16: "uint (ucast (x::c_int) :: uint16_t) = uint x mod 65536"
  by (simp only: unsigned_ucast_eq take_bit_eq_mod) simp

lemma uint_truncate16_32: "uint (ucast (x::c_int) :: uint16_t) = k mod 65536"
  if "uint x = k mod 4294967296"
proof -
  have "(65536::int) dvd 4294967296"
    by simp
  then have "k mod 4294967296 mod 65536 = k mod 65536"
    by (rule mod_mod_cancel)
  then show ?thesis
    by (simp add: uint_truncate16 that)
qed

lemma acc_SUB:
  "(let result1 = (ucast ((ucast (a::uint8_t) :: c_int) - ucast (b::uint8_t)) :: uint16_t)
    in if a < b then ucast ((ucast result1 :: c_int) + 256) else result1) = (ucast (a - b) :: uint16_t)"
proof -
  define d where "d = uint a - uint b"
  have "0 \<le> uint a" "0 \<le> uint b"
    by simp_all
  moreover have "uint a < 256" "uint b < 256"
    using uint_lt2p [of a] uint_lt2p [of b] by simp_all
  ultimately have bounds: "- 256 < d" "d < 256"
    unfolding d_def by linarith+
  have "uint ((ucast a :: c_int) - ucast b) = d mod 4294967296"
    by (simp add: uint_word_ariths uint_promote8 d_def)
  then have r16: "uint (ucast ((ucast a :: c_int) - ucast b) :: uint16_t) = d mod 65536"
    by (rule uint_truncate16_32)
  have r8: "uint (ucast (a - b) :: uint16_t) = d mod 256"
    by (simp add: uint_widen8 uint_word_ariths d_def)
  show ?thesis
  proof (cases "a < b")
    case True
    then have neg: "d < 0"
      by (simp add: word_less_alt d_def)
    have m16: "d mod 65536 = d + 65536"
      using bounds neg by (intro mod_wrap_neg) simp_all
    have m8: "d mod 256 = d + 256"
      using bounds neg by (intro mod_wrap_neg) simp_all
    have u256: "uint (256 :: c_int) = 256"
      by simp
    have "uint ((ucast (ucast ((ucast a :: c_int) - ucast b) :: uint16_t) :: c_int) + 256)
        = (d + 256 + 65536) mod 4294967296"
      by (simp only: uint_word_ariths(1) uint_promote16 r16 m16 u256) simp
    then have "uint (ucast ((ucast (ucast ((ucast a :: c_int) - ucast b) :: uint16_t) :: c_int) + 256) :: uint16_t)
        = (d + 256 + 65536) mod 65536"
      by (rule uint_truncate16_32)
    also have "\<dots> = (d + 256) mod 65536"
      by (rule mod_add_self2)
    also have "\<dots> = d + 256"
      using bounds neg by (intro mod_pos_pos_trivial) simp_all
    finally show ?thesis
      using True by (simp add: word_uint_eq_iff r8 m8)
  next
    case False
    then have ge: "0 \<le> d"
      by (simp add: word_less_alt d_def)
    have "d mod 65536 = d" "d mod 256 = d"
      using bounds ge by simp_all
    then show ?thesis
      using False by (simp add: word_uint_eq_iff r8 r16)
  qed
qed

lemma acc_ADD:
  "(ucast ((ucast (a::uint8_t) :: c_int) + ucast (b::uint8_t)) :: uint16_t) = ucast a + ucast b"
  using unat_u8_less [of a] unat_u8_less [of b]
  by (simp add: word_unat_eq_iff unat_acc_ADD unat_word_ariths unsigned_ucast_eq take_bit_eq_mod)

lemma read_7_eq_u8: "unat (read (x::uint8_t) 7) = unat (read (y::uint8_t) 7) \<longleftrightarrow> bit x 7 = bit y 7"
  by (simp add: read_7_u8)

lemma read_7_eq_u16: "unat (read (x::uint8_t) 7) = unat (read (y::uint16_t) 7) \<longleftrightarrow> bit x 7 = bit y 7"
  by (simp add: read_7_u8 read_7_u16)

lemma bit_if_set_reg:
  "bit (if c then set_reg (x::uint8_t) k else x) n \<longleftrightarrow> bit x n \<or> (c \<and> n = unat k \<and> n < 8)"
  by (simp add: bit_set_reg_iff)

lemma bit_clear_flags_iff':
  "bit (ucast ((ucast (sr::uint8_t) :: c_int) AND - 32) :: uint8_t) n \<longleftrightarrow> bit sr n \<and> 5 \<le> n"
  using bit_clear_flags_iff [of sr n] by (simp add: S_def N_def Z_def V_def C_def)

lemma trunc_widen: "(ucast (ucast (x::uint8_t) :: uint16_t) :: uint8_t) = x"
  by (rule bit_word_eqI) (simp add: bit_simps)

lemma trunc_sum: "(ucast (ucast a + ucast b :: uint16_t) :: uint8_t) = a + b"
proof -
  have "(256::nat) dvd 65536"
    by simp
  then have "(unat a + unat b) mod 65536 mod 256 = (unat a + unat b) mod 256"
    by (rule mod_mod_cancel)
  moreover have "unat (ucast a :: uint16_t) = unat a" "unat (ucast b :: uint16_t) = unat b"
    using unat_u8_less [of a] unat_u8_less [of b]
    by (simp_all add: unsigned_ucast_eq take_bit_eq_mod)
  ultimately show ?thesis
    by (simp add: word_unat_eq_iff unsigned_ucast_eq [where ?'c = 8] take_bit_eq_mod unat_word_ariths)
qed

lemma bit_8_nat_iff: "bit k 8 \<longleftrightarrow> 256 \<le> k" if "k < 512" for k :: nat
proof -
  have "k div 256 = (if 256 \<le> k then 1 else 0)"
    using that by (simp add: div_nat_eqI)
  then show ?thesis
    by (simp add: bit_iff_odd)
qed

lemma carry_sum: "bit (ucast a + ucast b :: uint16_t) 8 \<longleftrightarrow> 256 \<le> unat (a::uint8_t) + unat (b::uint8_t)"
proof -
  have "unat (ucast a + ucast b :: uint16_t) = unat a + unat b"
    using unat_acc_ADD [of a b] by (simp add: acc_ADD)
  moreover have "unat a + unat b < 512"
    using unat_u8_less [of a] unat_u8_less [of b] by simp
  ultimately show ?thesis
    using bit_8_nat_iff [of "unat a + unat b"] bit_unsigned_iff [of "ucast a + ucast b :: uint16_t" 8, where ?'a = nat]
    by simp
qed

lemmas calc_simps = bit_set_reg_iff calculate_def ADD_def OR_op_def AND_op_def XOR_op_def SUB_def Let_def
  read_7_eq_u8 read_7_eq_u16 read_neq_0_iff bit_if_set_reg bit_clear_flags_iff'
  S_def N_def Z_def V_def C_def

lemma flag_bit_cases:
  fixes n :: nat
  obtains "n = 0" | "n = 1" | "n = 2" | "n = 3" | "n = 4" | "5 \<le> n"
  by linarith

lemma acc_SUB':
  "(if a < b then ucast ((ucast (ucast ((ucast (a::uint8_t) :: c_int) - ucast (b::uint8_t)) :: uint16_t) :: c_int) + 256)
    else ucast ((ucast a :: c_int) - ucast b)) = (ucast (a - b) :: uint16_t)"
  using acc_SUB [of a b] by (simp add: Let_def)

section \<open>The result and the flags of each operation\<close>

text \<open>
  For each operation, the status register after \<open>calculate\<close> is described bit by bit in
  terms of the widened accumulator \<open>r\<close> and the overflow condition \<open>v\<close> of the
  switch statement.
\<close>

lemma bit_snd_calculate_ADD:
  "bit (snd (calculate ADD a b sr)) n \<longleftrightarrow>
     (let r = (ucast a + ucast b :: uint16_t); v = (bit a 7 = bit b 7 \<and> bit a 7 \<noteq> bit r 7)
      in n = 0 \<and> bit r 8 \<or> n = 1 \<and> v \<or> n = 2 \<and> r = 0 \<or> n = 3 \<and> bit r 7
         \<or> n = 4 \<and> (bit r 7 \<noteq> v) \<or> 5 \<le> n \<and> bit sr n)"
proof (cases n rule: flag_bit_cases)
  case 6
  then show ?thesis
    using bit_imp_le_length [of sr n]
    by (auto simp add: calc_simps acc_ADD split del: if_split)
qed (auto simp add: calc_simps acc_ADD split del: if_split)


lemma bit_snd_calculate_SUB:
  "bit (snd (calculate SUB a b sr)) n \<longleftrightarrow>
     (let r = (ucast (a - b) :: uint16_t); v = (bit a 7 \<noteq> bit b 7 \<and> bit b 7 = bit r 7)
      in n = 0 \<and> bit r 8 \<or> n = 1 \<and> v \<or> n = 2 \<and> r = 0 \<or> n = 3 \<and> bit r 7
         \<or> n = 4 \<and> (bit r 7 \<noteq> v) \<or> 5 \<le> n \<and> bit sr n)"
proof (cases n rule: flag_bit_cases)
  case 6
  then show ?thesis
    using bit_imp_le_length [of sr n]
    by (auto simp add: calc_simps acc_SUB' split del: if_split)
qed (auto simp add: calc_simps acc_SUB' split del: if_split)

lemma bit_snd_calculate_OR:
  "bit (snd (calculate OR_op a b sr)) n \<longleftrightarrow>
     (let r = (ucast (a OR b) :: uint16_t)
      in n = 0 \<and> bit r 8 \<or> n = 2 \<and> r = 0 \<or> n = 3 \<and> bit r 7
         \<or> n = 4 \<and> bit r 7 \<or> 5 \<le> n \<and> bit sr n)"
proof (cases n rule: flag_bit_cases)
  case 6
  then show ?thesis
    using bit_imp_le_length [of sr n]
    by (auto simp add: calc_simps acc_OR split del: if_split)
qed (auto simp add: calc_simps acc_OR split del: if_split)

lemma bit_snd_calculate_AND:
  "bit (snd (calculate AND_op a b sr)) n \<longleftrightarrow>
     (let r = (ucast (a AND b) :: uint16_t)
      in n = 0 \<and> bit r 8 \<or> n = 2 \<and> r = 0 \<or> n = 3 \<and> bit r 7
         \<or> n = 4 \<and> bit r 7 \<or> 5 \<le> n \<and> bit sr n)"
proof (cases n rule: flag_bit_cases)
  case 6
  then show ?thesis
    using bit_imp_le_length [of sr n]
    by (auto simp add: calc_simps acc_AND split del: if_split)
qed (auto simp add: calc_simps acc_AND split del: if_split)

lemma bit_snd_calculate_XOR:
  "bit (snd (calculate XOR_op a b sr)) n \<longleftrightarrow>
     (let r = (ucast (a XOR b) :: uint16_t)
      in n = 0 \<and> bit r 8 \<or> n = 2 \<and> r = 0 \<or> n = 3 \<and> bit r 7
         \<or> n = 4 \<and> bit r 7 \<or> 5 \<le> n \<and> bit sr n)"
proof (cases n rule: flag_bit_cases)
  case 6
  then show ?thesis
    using bit_imp_le_length [of sr n]
    by (auto simp add: calc_simps acc_XOR split del: if_split)
qed (auto simp add: calc_simps acc_XOR split del: if_split)

lemma bit_snd_calculate_other:
  assumes "operation \<notin> {OR_op, AND_op, XOR_op, ADD, SUB}"
  shows "bit (snd (calculate operation a b sr)) n \<longleftrightarrow> n = 2 \<or> 5 \<le> n \<and> bit sr n"
proof (cases n rule: flag_bit_cases)
  case 6
  then show ?thesis
    using assms bit_imp_le_length [of sr n]
    by (auto simp add: calc_simps split del: if_split)
qed (use assms in \<open>auto simp add: calc_simps split del: if_split\<close>)

lemma fst_calculate_OR: "fst (calculate OR_op a b sr) = a OR b"
  by (simp add: calc_simps acc_OR trunc_widen split del: if_split)

lemma fst_calculate_AND: "fst (calculate AND_op a b sr) = a AND b"
  by (simp add: calc_simps acc_AND trunc_widen split del: if_split)

lemma fst_calculate_XOR: "fst (calculate XOR_op a b sr) = a XOR b"
  by (simp add: calc_simps acc_XOR trunc_widen split del: if_split)

lemma fst_calculate_ADD: "fst (calculate ADD a b sr) = a + b"
  by (simp add: calc_simps acc_ADD trunc_sum split del: if_split)

lemma fst_calculate_SUB: "fst (calculate SUB a b sr) = a - b"
  by (simp add: calc_simps acc_SUB' trunc_widen split del: if_split)

lemma fst_calculate_other:
  "operation \<notin> {OR_op, AND_op, XOR_op, ADD, SUB} \<Longrightarrow> fst (calculate operation a b sr) = 0"
  by (simp add: calc_simps split del: if_split)

section \<open>Properties that hold for every operation code\<close>

lemma operation_cases:
  obtains "operation = OR_op" | "operation = AND_op" | "operation = XOR_op"
    | "operation = ADD" | "operation = SUB"
    | "operation \<notin> {OR_op, AND_op, XOR_op, ADD, SUB}"
  by blast

lemma bit_widen_iff: "bit (ucast (x::uint8_t) :: uint16_t) n \<longleftrightarrow> bit x n"
  using bit_imp_le_length [of x n] by (auto simp add: bit_simps)

lemma bit_7_sum: "bit (ucast a + ucast b :: uint16_t) 7 \<longleftrightarrow> bit (a + b :: uint8_t) 7"
  using bit_ucast_iff [of "ucast a + ucast b :: uint16_t" 7, where ?'a = 8]
  by (simp add: trunc_sum)

lemma snd_calculate_frame:
  "5 \<le> n \<Longrightarrow> bit (snd (calculate operation a b sr)) n \<longleftrightarrow> bit sr n"
  by (cases operation rule: operation_cases)
    (simp_all add: bit_snd_calculate_OR bit_snd_calculate_AND bit_snd_calculate_XOR
      bit_snd_calculate_ADD bit_snd_calculate_SUB bit_snd_calculate_other Let_def)

lemma snd_calculate_flags_indep:
  "n < 5 \<Longrightarrow> bit (snd (calculate operation a b sr1)) n \<longleftrightarrow> bit (snd (calculate operation a b sr2)) n"
  by (cases operation rule: operation_cases)
    (simp_all add: bit_snd_calculate_OR bit_snd_calculate_AND bit_snd_calculate_XOR
      bit_snd_calculate_ADD bit_snd_calculate_SUB bit_snd_calculate_other Let_def)

lemma fst_calculate_indep:
  "fst (calculate operation a b sr1) = fst (calculate operation a b sr2)"
  by (cases operation rule: operation_cases)
    (simp_all add: fst_calculate_OR fst_calculate_AND fst_calculate_XOR
      fst_calculate_ADD fst_calculate_SUB fst_calculate_other)

lemma bit_31_u8_iff: "bit (31 :: uint8_t) n \<longleftrightarrow> n < 5"
  by (auto simp add: bit_31_iff)

lemma bit_224_u8_iff: "bit (224 :: uint8_t) n \<longleftrightarrow> 5 \<le> n \<and> n < 8"
proof -
  have "(224 :: uint8_t) = NOT 31"
    by simp
  then show ?thesis
    by (simp only: bit_not_iff bit_31_u8_iff) (auto simp add: not_less)
qed

section \<open>The claims\<close>

subsection \<open>C1: subtraction\<close>

text \<open>
  C1, as amended: for all bytes \<open>a\<close> and \<open>b\<close> and every initial status register,
  \<open>calculate(SUB, a, b, sr)\<close> returns \<open>(a - b) mod 256\<close>, and the Carry flag
  (bit 0 of \<open>sr\<close>) is clear afterwards: the statement \<open>if (a < b) result += 256\<close>
  brings the accumulator back into the range 0 to 255, so its bit 8 is never set.
\<close>

theorem calculate_SUB_result_carry_clear:
  "uint (fst (calculate SUB a b sr)) = (uint a - uint b) mod 256
   \<and> \<not> bit (snd (calculate SUB a b sr)) 0"
proof -
  have "\<not> bit (a - b) 8"
    using bit_imp_le_length [of "a - b" 8] by auto
  then have "\<not> bit (snd (calculate SUB a b sr)) 0"
    by (simp add: bit_snd_calculate_SUB bit_widen_iff Let_def)
  moreover have "uint (a - b) = (uint a - uint b) mod 256"
    by (simp add: uint_word_ariths)
  ultimately show ?thesis
    by (simp only: fst_calculate_SUB) simp
qed

text \<open>
  C1, as stated, fails at \<open>a = 0\<close>, \<open>b = 1\<close>, \<open>sr = 0\<close>: the result is
  \<open>255 = (0 - 1) mod 256\<close> and \<open>a < b\<close>, but the Carry flag is clear.
\<close>

theorem calculate_SUB_carry_counterexample:
  "uint (fst (calculate SUB 0 1 0)) = 255
   \<and> uint (0::uint8_t) < uint (1::uint8_t)
   \<and> \<not> bit (snd (calculate SUB 0 1 0)) 0"
proof -
  have "\<not> bit (0 - 1 :: uint8_t) 8"
    using bit_imp_le_length [of "0 - 1 :: uint8_t" 8] by auto
  then have "\<not> bit (snd (calculate SUB 0 1 0)) 0"
    by (simp add: bit_snd_calculate_SUB bit_widen_iff Let_def)
  moreover have "uint (0 - 1 :: uint8_t) = 255"
    by (simp add: unsigned_minus_1_eq_mask mask_eq_exp_minus_1)
  ultimately show ?thesis
    by (simp only: fst_calculate_SUB) simp
qed

subsection \<open>C2: the Zero flag\<close>

text \<open>
  C2: the Zero flag (bit 2 of \<open>sr\<close>) should be set exactly when the returned byte is
  zero. The test \<open>result == 0\<close> is made on the 16-bit accumulator before truncation:
  \<open>calculate(ADD, 255, 1, sr)\<close> with \<open>sr = 0\<close> returns the byte 0 (the accumulator
  is 256) and leaves the Zero flag clear.
\<close>

theorem calculate_ADD_zero_flag_255_1:
  "fst (calculate ADD 255 1 0) = 0 \<and> \<not> bit (snd (calculate ADD 255 1 0)) 2"
  by (simp add: fst_calculate_ADD bit_snd_calculate_ADD Let_def)

subsection \<open>C3: the scenario ADD(100, 50)\<close>

text \<open>
  C3, as amended: for every initial status register, \<open>calculate(ADD, 100, 50, sr)\<close>
  returns 150 with Carry = 0, Overflow = 1, Negative = 1, Zero = 0 and Signed = 0, and
  \<open>get_signed(result, sr)\<close> on that result and the updated register is 150: the Signed
  flag is clear, so \<open>get_signed\<close> returns the byte unchanged.
\<close>

theorem calculate_ADD_100_50:
  "fst (calculate ADD 100 50 sr) = 150
   \<and> \<not> bit (snd (calculate ADD 100 50 sr)) 0
   \<and> bit (snd (calculate ADD 100 50 sr)) 1
   \<and> bit (snd (calculate ADD 100 50 sr)) 3
   \<and> \<not> bit (snd (calculate ADD 100 50 sr)) 2
   \<and> \<not> bit (snd (calculate ADD 100 50 sr)) 4
   \<and> get_signed (fst (calculate ADD 100 50 sr)) (snd (calculate ADD 100 50 sr)) = 150"
proof -
  have flags: "\<not> bit (snd (calculate ADD 100 50 sr)) 0" "bit (snd (calculate ADD 100 50 sr)) 1"
    "bit (snd (calculate ADD 100 50 sr)) 3" "\<not> bit (snd (calculate ADD 100 50 sr)) 2"
    "\<not> bit (snd (calculate ADD 100 50 sr)) 4"
    by (simp_all add: bit_snd_calculate_ADD Let_def)
  have result: "fst (calculate ADD 100 50 sr) = 150"
    by (simp add: fst_calculate_ADD)
  have "get_signed 150 (snd (calculate ADD 100 50 sr)) = 150"
    using flags(5) by (simp add: get_signed_def read_neq_0_iff S_def)
  with flags result show ?thesis
    by simp
qed

text \<open>
  C3, as stated, fails in its last part: with \<open>sr = 0\<close>, the signed rendering
  \<open>get_signed(result, sr)\<close> of the result of \<open>calculate(ADD, 100, 50, sr)\<close> is not
  \<open>150 - 256 = -106\<close>.
\<close>

theorem get_signed_ADD_100_50_counterexample:
  "get_signed (fst (calculate ADD 100 50 0)) (snd (calculate ADD 100 50 0)) \<noteq> - 106"
proof -
  have "\<not> bit (snd (calculate ADD 100 50 0)) 4"
    by (simp add: bit_snd_calculate_ADD Let_def)
  then show ?thesis
    by (simp add: fst_calculate_ADD get_signed_def read_neq_0_iff S_def)
qed

subsection \<open>C4: addition\<close>

text \<open>
  C4: for all bytes \<open>a\<close> and \<open>b\<close> and every initial status register,
  \<open>calculate(ADD, a, b, sr)\<close> returns \<open>(a + b) mod 256\<close>, and the Carry flag (bit 0
  of \<open>sr\<close>) is set if and only if \<open>a + b \<ge> 256\<close>.
\<close>

theorem calculate_ADD_result_carry:
  "uint (fst (calculate ADD a b sr)) = (uint a + uint b) mod 256
   \<and> (bit (snd (calculate ADD a b sr)) 0 \<longleftrightarrow> 256 \<le> uint a + uint b)"
proof -
  have ua: "uint a = int (unat a)" and ub: "uint b = int (unat b)"
    by (rule uint_nat)+
  have "256 \<le> uint a + uint b \<longleftrightarrow> 256 \<le> unat a + unat b"
    unfolding ua ub by linarith
  moreover have "uint (a + b) = (uint a + uint b) mod 256"
    by (simp add: uint_word_ariths)
  moreover have "bit (snd (calculate ADD a b sr)) 0 \<longleftrightarrow> 256 \<le> unat a + unat b"
    by (simp add: bit_snd_calculate_ADD carry_sum Let_def)
  ultimately show ?thesis
    by (simp only: fst_calculate_ADD)
qed

subsection \<open>C5: the Overflow flag\<close>

text \<open>
  C5: \<open>calculate\<close> returns the truncated sum \<open>a + b\<close> for ADD and the truncated
  difference \<open>a - b\<close> for SUB, and afterwards the Overflow flag (bit 1 of \<open>sr\<close>) is
  set, for ADD, exactly when \<open>a\<close> and \<open>b\<close> have equal bit 7 and the truncated sum has
  a different bit 7 than the operands; for SUB, exactly when \<open>a\<close> and \<open>b\<close> have
  different bit 7 and the truncated difference has the same bit 7 as \<open>b\<close>; for OR, AND
  and XOR it is never set.
\<close>

theorem calculate_overflow_flag:
  "fst (calculate ADD a b sr) = a + b
   \<and> (bit (snd (calculate ADD a b sr)) 1 \<longleftrightarrow>
      bit a 7 = bit b 7 \<and> bit (a + b) 7 \<noteq> bit a 7)
   \<and> fst (calculate SUB a b sr) = a - b
   \<and> (bit (snd (calculate SUB a b sr)) 1 \<longleftrightarrow>
      bit a 7 \<noteq> bit b 7 \<and> bit (a - b) 7 = bit b 7)
   \<and> \<not> bit (snd (calculate OR_op a b sr)) 1
   \<and> \<not> bit (snd (calculate AND_op a b sr)) 1
   \<and> \<not> bit (snd (calculate XOR_op a b sr)) 1"
proof -
  have "bit (snd (calculate ADD a b sr)) 1 \<longleftrightarrow>
      bit a 7 = bit b 7 \<and> bit (a + b) 7 \<noteq> bit a 7"
    by (auto simp add: bit_snd_calculate_ADD bit_7_sum Let_def)
  moreover have "bit (snd (calculate SUB a b sr)) 1 \<longleftrightarrow>
      bit a 7 \<noteq> bit b 7 \<and> bit (a - b) 7 = bit b 7"
    by (auto simp add: bit_snd_calculate_SUB bit_widen_iff Let_def)
  moreover have "\<not> bit (snd (calculate OR_op a b sr)) 1"
    by (simp add: bit_snd_calculate_OR Let_def)
  moreover have "\<not> bit (snd (calculate AND_op a b sr)) 1"
    by (simp add: bit_snd_calculate_AND Let_def)
  moreover have "\<not> bit (snd (calculate XOR_op a b sr)) 1"
    by (simp add: bit_snd_calculate_XOR Let_def)
  ultimately show ?thesis
    by (simp only: fst_calculate_ADD fst_calculate_SUB) blast
qed

subsection \<open>C6: the bitwise operations\<close>

text \<open>
  C6: for all bytes \<open>a\<close> and \<open>b\<close> and each of OR, AND and XOR, \<open>calculate\<close>
  returns the bitwise OR, AND or XOR of \<open>a\<close> and \<open>b\<close>, the Overflow flag (bit 1)
  and the Carry flag (bit 0) are clear afterwards, and the Signed flag (bit 4) equals the
  Negative flag (bit 3).
\<close>

theorem calculate_bitwise:
  "fst (calculate OR_op a b sr) = a OR b
   \<and> \<not> bit (snd (calculate OR_op a b sr)) 1
   \<and> \<not> bit (snd (calculate OR_op a b sr)) 0
   \<and> (bit (snd (calculate OR_op a b sr)) 4 \<longleftrightarrow> bit (snd (calculate OR_op a b sr)) 3)
   \<and> fst (calculate AND_op a b sr) = a AND b
   \<and> \<not> bit (snd (calculate AND_op a b sr)) 1
   \<and> \<not> bit (snd (calculate AND_op a b sr)) 0
   \<and> (bit (snd (calculate AND_op a b sr)) 4 \<longleftrightarrow> bit (snd (calculate AND_op a b sr)) 3)
   \<and> fst (calculate XOR_op a b sr) = a XOR b
   \<and> \<not> bit (snd (calculate XOR_op a b sr)) 1
   \<and> \<not> bit (snd (calculate XOR_op a b sr)) 0
   \<and> (bit (snd (calculate XOR_op a b sr)) 4 \<longleftrightarrow> bit (snd (calculate XOR_op a b sr)) 3)"
proof -
  have no_bit_8: "\<not> bit x 8" for x :: uint8_t
    using bit_imp_le_length [of x 8] by auto
  have "\<not> bit (snd (calculate OR_op a b sr)) 1" "\<not> bit (snd (calculate OR_op a b sr)) 0"
    "bit (snd (calculate OR_op a b sr)) 4 \<longleftrightarrow> bit (snd (calculate OR_op a b sr)) 3"
    by (simp_all add: bit_snd_calculate_OR bit_widen_iff no_bit_8 Let_def)
  moreover have "\<not> bit (snd (calculate AND_op a b sr)) 1" "\<not> bit (snd (calculate AND_op a b sr)) 0"
    "bit (snd (calculate AND_op a b sr)) 4 \<longleftrightarrow> bit (snd (calculate AND_op a b sr)) 3"
    by (simp_all add: bit_snd_calculate_AND bit_widen_iff no_bit_8 Let_def)
  moreover have "\<not> bit (snd (calculate XOR_op a b sr)) 1" "\<not> bit (snd (calculate XOR_op a b sr)) 0"
    "bit (snd (calculate XOR_op a b sr)) 4 \<longleftrightarrow> bit (snd (calculate XOR_op a b sr)) 3"
    by (simp_all add: bit_snd_calculate_XOR bit_widen_iff no_bit_8 Let_def)
  ultimately show ?thesis
    by (simp only: fst_calculate_OR fst_calculate_AND fst_calculate_XOR) simp
qed

subsection \<open>C7: the Signed flag\<close>

text \<open>
  C7: for every operation code and all bytes \<open>a\<close> and \<open>b\<close>, after \<open>calculate\<close>
  the Signed flag (bit 4 of \<open>sr\<close>) is the exclusive-or of the Negative flag (bit 3) and
  the Overflow flag (bit 1).
\<close>

theorem calculate_signed_flag:
  "bit (snd (calculate operation a b sr)) 4 \<longleftrightarrow>
     bit (snd (calculate operation a b sr)) 3 \<noteq> bit (snd (calculate operation a b sr)) 1"
  by (cases operation rule: operation_cases)
    (simp_all add: bit_snd_calculate_OR bit_snd_calculate_AND bit_snd_calculate_XOR
      bit_snd_calculate_ADD bit_snd_calculate_SUB bit_snd_calculate_other Let_def)

subsection \<open>C8: unrecognized operation codes\<close>

text \<open>
  C8: for every operation code other than OR = 1, AND = 2, XOR = 3, ADD = 4 and SUB = 5,
  and all bytes \<open>a\<close> and \<open>b\<close>, \<open>calculate\<close> returns 0 with the Zero flag set and
  the Signed, Negative, Overflow and Carry flags clear.
\<close>

theorem calculate_unrecognized:
  assumes "operation \<notin> {OR_op, AND_op, XOR_op, ADD, SUB}"
  shows "fst (calculate operation a b sr) = 0
    \<and> bit (snd (calculate operation a b sr)) 2
    \<and> \<not> bit (snd (calculate operation a b sr)) 4
    \<and> \<not> bit (snd (calculate operation a b sr)) 3
    \<and> \<not> bit (snd (calculate operation a b sr)) 1
    \<and> \<not> bit (snd (calculate operation a b sr)) 0"
  using assms by (simp add: fst_calculate_other bit_snd_calculate_other)

text \<open>
  C8 at the operation code \<open>NOP = 0\<close> with \<open>a = 7\<close>, \<open>b = 9\<close> and all bits of
  the status register set beforehand.
\<close>

theorem calculate_unrecognized_witness:
  "NOP \<notin> {OR_op, AND_op, XOR_op, ADD, SUB}
    \<and> fst (calculate NOP 7 9 255) = 0
    \<and> bit (snd (calculate NOP 7 9 255)) 2
    \<and> \<not> bit (snd (calculate NOP 7 9 255)) 4
    \<and> \<not> bit (snd (calculate NOP 7 9 255)) 3
    \<and> \<not> bit (snd (calculate NOP 7 9 255)) 1
    \<and> \<not> bit (snd (calculate NOP 7 9 255)) 0"
proof -
  have h: "NOP \<notin> {OR_op, AND_op, XOR_op, ADD, SUB}"
    by (simp add: NOP_def OR_op_def AND_op_def XOR_op_def ADD_def SUB_def)
  show ?thesis
    using h calculate_unrecognized [OF h, of 7 9 255] by simp
qed

subsection \<open>C9: independence of the initial status register\<close>

text \<open>
  C9: for every operation code and all bytes \<open>a\<close> and \<open>b\<close>, the byte returned by
  \<open>calculate\<close> and the resulting flag bits 0 to 4 of \<open>sr\<close> are the same for any two
  initial values of the status register.
\<close>

theorem calculate_independent_of_sr:
  "fst (calculate operation a b sr1) = fst (calculate operation a b sr2)
   \<and> snd (calculate operation a b sr1) AND 0x1F = snd (calculate operation a b sr2) AND 0x1F"
proof -
  have "snd (calculate operation a b sr1) AND 0x1F = snd (calculate operation a b sr2) AND 0x1F"
  proof (rule bit_word_eqI)
    fix n
    show "bit (snd (calculate operation a b sr1) AND 0x1F) n
      \<longleftrightarrow> bit (snd (calculate operation a b sr2) AND 0x1F) n"
      using snd_calculate_flags_indep [of n operation a b sr1 sr2]
      by (auto simp only: bit_and_iff bit_31_u8_iff)
  qed
  with fst_calculate_indep [of operation a b sr1 sr2] show ?thesis
    by simp
qed

subsection \<open>C10: the upper bits of the status register\<close>

text \<open>
  C10: for every operation code, recognized or not, and all bytes \<open>a\<close> and \<open>b\<close>,
  bits 5 to 7 of the status register keep their prior values through \<open>calculate\<close>.
\<close>

theorem calculate_frame:
  "snd (calculate operation a b sr) AND 0xE0 = sr AND 0xE0"
proof (rule bit_word_eqI)
  fix n
  show "bit (snd (calculate operation a b sr) AND 0xE0) n \<longleftrightarrow> bit (sr AND 0xE0) n"
    using snd_calculate_frame [of n operation a b sr]
    by (auto simp only: bit_and_iff bit_224_u8_iff)
qed

end
